theory Spec2Isabelle
  imports
    Complex_Main
    "HOL-Library.Finite_Map"
    "HOL-Library.Word"
    "HOL-Library.List_Lexorder"
    "HOL-Library.Char_ord"
begin

section \<open>The value model of \<^verbatim>\<open>include/storage.h\<close>\<close>

text \<open>
  \<^verbatim>\<open>using InternalValue = std::variant<int, double, std::string, bool>;\<close>

  A C++ \<^verbatim>\<open>int\<close> is a 32-bit two's complement word, read with \<open>sint\<close>. The store never
  computes with a \<^verbatim>\<open>double\<close>: it holds it and hands it to the JSON library, which only
  distinguishes finite values from the three non-finite ones. A \<^verbatim>\<open>std::string\<close> is a
  sequence of bytes.
\<close>

datatype double = Finite real | PlusInfinity | MinusInfinity | NaN

datatype Value = VInt "32 word" | VDouble double | VString string | VBool bool

text \<open>
  \<^verbatim>\<open>std::chrono::steady_clock::time_point\<close>: a count of nanosecond ticks since the clock's
  epoch. The default-constructed time point is the epoch, tick 0. Every method reads the
  clock at most once; that reading is the parameter \<open>now\<close> of its model. The source
  counts the ticks in 64 bits; a reading plus a 32-bit number of seconds stays within them
  for more than two centuries after the epoch, and the model takes the count unbounded.
\<close>

type_synonym time_point = int

definition seconds :: "int \<Rightarrow> int" where
  "seconds n = n * 1000000000"

text \<open>
  \<^verbatim>\<open>struct ValueEntry { InternalValue value; time_point expiry; bool hasExpiry = false; };\<close>
\<close>

record ValueEntry =
  entry_value :: Value
  expiry :: time_point
  hasExpiry :: bool

text \<open>
  \<^verbatim>\<open>std::unordered_map<std::string, ValueEntry> map_;\<close> is a finite map with unique keys.
  The mutex makes every method atomic on it, so a method is a function from the map before
  the call to the result and the map after it.
\<close>

type_synonym storage = "(string, ValueEntry) fmap"

section \<open>The methods of \<^verbatim>\<open>src/storage.cpp\<close>\<close>

text \<open>\<^verbatim>\<open>map_[key] = ValueEntry{value, {}, false};\<close>\<close>

definition set_storage :: "string \<Rightarrow> Value \<Rightarrow> storage \<Rightarrow> storage" where
  "set_storage key v m =
     fmupd key \<lparr>entry_value = v, expiry = 0, hasExpiry = False\<rparr> m"

text \<open>The overload with \<^verbatim>\<open>int ttl_secs\<close>: \<^verbatim>\<open>entry.expiry = now() + seconds(ttl_secs)\<close>.\<close>

definition set_storage_ttl ::
  "time_point \<Rightarrow> string \<Rightarrow> Value \<Rightarrow> 32 word \<Rightarrow> storage \<Rightarrow> storage" where
  "set_storage_ttl now key v ttl_secs m =
     fmupd key \<lparr>entry_value = v, expiry = now + seconds (sint ttl_secs), hasExpiry = True\<rparr> m"

definition get :: "time_point \<Rightarrow> string \<Rightarrow> storage \<Rightarrow> Value option \<times> storage" where
  "get now key m =
     (case fmlookup m key of
        None \<Rightarrow> (None, m)
      | Some e \<Rightarrow>
          if hasExpiry e \<and> now \<ge> expiry e then (None, fmdrop key m)
          else (Some (entry_value e), m))"

text \<open>\<^verbatim>\<open>return map_.erase(key) > 0;\<close>\<close>

definition del :: "string \<Rightarrow> storage \<Rightarrow> bool \<times> storage" where
  "del key m = (key |\<in>| fmdom m, fmdrop key m)"

definition exists :: "time_point \<Rightarrow> string \<Rightarrow> storage \<Rightarrow> bool \<times> storage" where
  "exists now key m =
     (case fmlookup m key of
        None \<Rightarrow> (False, m)
      | Some e \<Rightarrow>
          if hasExpiry e \<and> now \<ge> expiry e then (False, fmdrop key m)
          else (True, m))"

text \<open>\<^verbatim>\<open>return map_.size();\<close>\<close>

definition size_storage :: "storage \<Rightarrow> nat" where
  "size_storage m = fcard (fmdom m)"

definition expire :: "time_point \<Rightarrow> string \<Rightarrow> 32 word \<Rightarrow> storage \<Rightarrow> bool \<times> storage" where
  "expire now key ttl_secs m =
     (case fmlookup m key of
        None \<Rightarrow> (False, m)
      | Some e \<Rightarrow>
          (True, fmupd key (e\<lparr>hasExpiry := True, expiry := now + seconds (sint ttl_secs)\<rparr>) m))"

text \<open>
  The loops over \<^verbatim>\<open>map_\<close> (in \<^verbatim>\<open>dump\<close>, \<^verbatim>\<open>cleaner\<close> and \<^verbatim>\<open>saveToFile\<close>) visit
  the entries in an order the container does not specify and treat each entry on its own,
  with one clock reading for the whole loop: each is the filter, or the filter and map, of
  the entries by the loop's test.

  \<^verbatim>\<open>dump() const\<close> walks \<^verbatim>\<open>map_\<close> with one clock reading and copies the value of every
  entry it does not skip into a fresh map; it returns that map and writes nothing to
  \<^verbatim>\<open>map_\<close>. The pair's second component is the store after the call.
\<close>

definition dump :: "time_point \<Rightarrow> storage \<Rightarrow> (string, Value) fmap \<times> storage" where
  "dump now m =
     (fmmap entry_value
        (fmfilter (\<lambda>key. case fmlookup m key of
                            None \<Rightarrow> False
                          | Some val \<Rightarrow> \<not> (hasExpiry val \<and> now \<ge> expiry val)) m),
      m)"

text \<open>One pass of the loop body of \<^verbatim>\<open>cleaner()\<close>: erase every entry whose expiry has passed.\<close>

definition cleaner_sweep :: "time_point \<Rightarrow> storage \<Rightarrow> storage" where
  "cleaner_sweep now m =
     fmfilter (\<lambda>key. case fmlookup m key of
                       None \<Rightarrow> False
                     | Some e \<Rightarrow> \<not> (hasExpiry e \<and> now \<ge> expiry e)) m"

section \<open>The JSON library, as \<^verbatim>\<open>saveToFile\<close> and \<^verbatim>\<open>loadFromFile\<close> use it\<close>

text \<open>
  A \<^verbatim>\<open>nlohmann::json\<close> value. \<open>JInt\<close> stands for both \<^verbatim>\<open>number_integer\<close> and
  \<^verbatim>\<open>number_unsigned\<close>: the loader only asks \<^verbatim>\<open>is_number_integer()\<close>, which is true of
  both. An object is a \<^verbatim>\<open>std::map<std::string, json>\<close>; its members are listed in the
  order its iterator visits them, which is the order of the keys.
\<close>

datatype json =
    JNull
  | JBool bool
  | JInt int
  | JFloat double
  | JString string
  | JArray "json list"
  | JObject "(string \<times> json) list"

text \<open>
  What can end a call other than a return: one of the library's exceptions, or undefined
  behaviour (\<^verbatim>\<open>JSON_ASSERT\<close> on a missing key of a const object, which aborts unless
  \<^verbatim>\<open>NDEBUG\<close> is set, and a cast of a floating-point number that does not fit an \<^verbatim>\<open>int\<close>).
\<close>

datatype fault = parse_error | type_error | invalid_iterator | undefined_behaviour

text \<open>
  A file as the two methods see it: its bytes either are rejected by the parser or parse
  to a document. A file name that cannot be opened is \<open>None\<close>.
\<close>

datatype file_content = Unparsable | Parses json

text \<open>
  \<^verbatim>\<open>dump\<close> refuses a string or a key that is not well-formed UTF-8 with
  \<^verbatim>\<open>type_error.316\<close>. The well-formed byte sequences:
\<close>

definition byte_in :: "nat \<Rightarrow> nat \<Rightarrow> char \<Rightarrow> bool" where
  "byte_in lo hi c = (lo \<le> (of_char c :: nat) \<and> (of_char c :: nat) \<le> hi)"

fun utf8_valid :: "string \<Rightarrow> bool" where
  "utf8_valid [] = True"
| "utf8_valid [c] = byte_in 0 127 c"
| "utf8_valid [c, c1] =
     (if byte_in 0 127 c then utf8_valid [c1]
      else byte_in 194 223 c \<and> byte_in 128 191 c1)"
| "utf8_valid [c, c1, c2] =
     (if byte_in 0 127 c then utf8_valid [c1, c2]
      else if byte_in 194 223 c then byte_in 128 191 c1 \<and> utf8_valid [c2]
      else
        (byte_in 224 224 c \<and> byte_in 160 191 c1
         \<or> byte_in 225 236 c \<and> byte_in 128 191 c1
         \<or> byte_in 237 237 c \<and> byte_in 128 159 c1
         \<or> byte_in 238 239 c \<and> byte_in 128 191 c1)
        \<and> byte_in 128 191 c2)"
| "utf8_valid (c # c1 # c2 # c3 # cs) =
     (if byte_in 0 127 c then utf8_valid (c1 # c2 # c3 # cs)
      else if byte_in 194 223 c then byte_in 128 191 c1 \<and> utf8_valid (c2 # c3 # cs)
      else if byte_in 224 239 c then
        (byte_in 224 224 c \<and> byte_in 160 191 c1
         \<or> byte_in 225 236 c \<and> byte_in 128 191 c1
         \<or> byte_in 237 237 c \<and> byte_in 128 159 c1
         \<or> byte_in 238 239 c \<and> byte_in 128 191 c1)
        \<and> byte_in 128 191 c2 \<and> utf8_valid (c3 # cs)
      else
        (byte_in 240 240 c \<and> byte_in 144 191 c1
         \<or> byte_in 241 243 c \<and> byte_in 128 191 c1
         \<or> byte_in 244 244 c \<and> byte_in 128 143 c1)
        \<and> byte_in 128 191 c2 \<and> byte_in 128 191 c3 \<and> utf8_valid cs)"

text \<open>Whether \<^verbatim>\<open>js.dump(4)\<close> returns: every string and every key in the value is UTF-8.\<close>

primrec dumps :: "json \<Rightarrow> bool" where
  "dumps JNull = True"
| "dumps (JBool b) = True"
| "dumps (JInt n) = True"
| "dumps (JFloat d) = True"
| "dumps (JString s) = utf8_valid s"
| "dumps (JArray xs) = list_all (\<lambda>b. b) (map dumps xs)"
| "dumps (JObject kvs) =
     list_all (\<lambda>(k, b). utf8_valid k \<and> b) (map (map_prod id dumps) kvs)"

text \<open>
  The document that the text written by \<^verbatim>\<open>js.dump(4)\<close> parses to. The text of a number,
  a string or a boolean reads back as the same value; a floating-point number that is not
  finite is written as \<^verbatim>\<open>null\<close>.
\<close>

primrec reparsed :: "json \<Rightarrow> json" where
  "reparsed JNull = JNull"
| "reparsed (JBool b) = JBool b"
| "reparsed (JInt n) = JInt n"
| "reparsed (JFloat d) = (case d of Finite x \<Rightarrow> JFloat d | _ \<Rightarrow> JNull)"
| "reparsed (JString s) = JString s"
| "reparsed (JArray xs) = JArray (map reparsed xs)"
| "reparsed (JObject kvs) = JObject (map (map_prod id reparsed) kvs)"

text \<open>
  \<^verbatim>\<open>j[key]\<close> on a \<^verbatim>\<open>const json&\<close>: the member of an object; \<^verbatim>\<open>type_error.305\<close> on
  anything that is not an object; an assertion when the object has no such member.
\<close>

definition at_const :: "json \<Rightarrow> string \<Rightarrow> fault + json" where
  "at_const j key =
     (case j of
        JObject members \<Rightarrow>
          (case map_of members key of
             None \<Rightarrow> Inl undefined_behaviour
           | Some v \<Rightarrow> Inr v)
      | _ \<Rightarrow> Inl type_error)"

text \<open>
  \<^verbatim>\<open>j.value(key, false)\<close>: the member converted to \<^verbatim>\<open>bool\<close> when the object has it
  (\<^verbatim>\<open>type_error.302\<close> unless it is a boolean), the default when it has not;
  \<^verbatim>\<open>type_error.306\<close> on anything that is not an object.
\<close>

definition value_or_false :: "json \<Rightarrow> string \<Rightarrow> fault + bool" where
  "value_or_false j key =
     (case j of
        JObject members \<Rightarrow>
          (case map_of members key of
             None \<Rightarrow> Inr False
           | Some (JBool b) \<Rightarrow> Inr b
           | Some _ \<Rightarrow> Inl type_error)
      | _ \<Rightarrow> Inl type_error)"

text \<open>
  \<^verbatim>\<open>int remaining = j;\<close>, that is \<^verbatim>\<open>j.get<int>()\<close>: a \<^verbatim>\<open>static_cast<int>\<close> of a number
  or a boolean, \<^verbatim>\<open>type_error.302\<close> on anything else. The cast of a 64-bit integer keeps
  its low 32 bits; the cast of a floating-point number drops its fraction and is undefined
  when the result does not fit.
\<close>

definition get_int :: "json \<Rightarrow> fault + 32 word" where
  "get_int j =
     (case j of
        JInt n \<Rightarrow> Inr (word_of_int n)
      | JBool b \<Rightarrow> Inr (if b then 1 else 0)
      | JFloat (Finite x) \<Rightarrow>
          (let t = (if x \<ge> 0 then \<lfloor>x\<rfloor> else \<lceil>x\<rceil>)
           in if - (2 ^ 31) \<le> t \<and> t < 2 ^ 31 then Inr (word_of_int t)
              else Inl undefined_behaviour)
      | JFloat _ \<Rightarrow> Inl undefined_behaviour
      | _ \<Rightarrow> Inl type_error)"

section \<open>Persistence: \<^verbatim>\<open>saveToFile\<close> and \<^verbatim>\<open>loadFromFile\<close>\<close>

text \<open>
  \<^verbatim>\<open>std::chrono::duration_cast<std::chrono::seconds>(d).count()\<close> of a duration of \<open>d\<close>
  nanoseconds: the whole seconds in it, rounded towards zero.
\<close>

definition duration_cast_seconds :: "int \<Rightarrow> int" where
  "duration_cast_seconds d =
     (if d \<ge> 0 then d div 1000000000 else - ((- d) div 1000000000))"

text \<open>\<^verbatim>\<open>std::visit([&](auto &&arg) { valueJson["value"] = arg; }, entry.value);\<close>\<close>

fun value_json :: "Value \<Rightarrow> json" where
  "value_json (VInt i) = JInt (sint i)"
| "value_json (VDouble d) = JFloat d"
| "value_json (VString s) = JString s"
| "value_json (VBool b) = JBool b"

text \<open>The object \<^verbatim>\<open>valueJson\<close> built for one entry, its three members in key order.\<close>

definition entry_json :: "time_point \<Rightarrow> ValueEntry \<Rightarrow> json" where
  "entry_json now entry =
     JObject
       [(''hasExpiry'', JBool (hasExpiry entry)),
        (''ttl_remaining'',
           if hasExpiry entry then JInt (duration_cast_seconds (expiry entry - now))
           else JNull),
        (''value'', value_json (entry_value entry))]"

text \<open>
  The value \<^verbatim>\<open>js\<close> at the end of the loop over \<^verbatim>\<open>map_\<close>: it starts as \<^verbatim>\<open>null\<close> and
  becomes an object with the first \<^verbatim>\<open>js[key] = valueJson\<close>, so a store with no entry to
  write is saved as \<^verbatim>\<open>null\<close>.
\<close>

definition saved_json :: "time_point \<Rightarrow> storage \<Rightarrow> json" where
  "saved_json now m =
     (let written =
            fmfilter (\<lambda>key. case fmlookup m key of
                               None \<Rightarrow> False
                             | Some entry \<Rightarrow> \<not> (hasExpiry entry \<and> now \<ge> expiry entry)) m
      in if written = fmempty then JNull
         else JObject (sorted_list_of_fmap (fmmap (entry_json now) written)))"

text \<open>
  \<open>saveToFile now opens m\<close>: \<open>opens\<close> says whether the \<^verbatim>\<open>std::ofstream\<close> could be opened.
  The result is what the call returns or how it ends, and the new content of the file when
  the call touched it: opening truncates it, and \<^verbatim>\<open>dump\<close> runs before anything is
  written. The source does not check the stream after the write and returns true; the
  model takes a write to an open stream to complete.
\<close>

definition saveToFile :: "time_point \<Rightarrow> bool \<Rightarrow> storage \<Rightarrow> (fault + bool) \<times> file_content option" where
  "saveToFile now opens m =
     (let js = saved_json now m
      in if \<not> opens then (Inr False, None)
         else if dumps js then (Inr True, Some (Parses (reparsed js)))
         else (Inl type_error, Some Unparsable))"

text \<open>
  The body of the loop of \<^verbatim>\<open>loadFromFile\<close> up to \<^verbatim>\<open>map_[key] = entry\<close>: the entry built
  from one member of the document. \<^verbatim>\<open>ValueEntry entry;\<close> starts with the integer 0, the
  epoch and no expiry; the chain of tests on \<^verbatim>\<open>v\<close> has no final \<^verbatim>\<open>else\<close>.
\<close>

definition load_value :: "json \<Rightarrow> Value" where
  "load_value v =
     (case v of
        JBool b \<Rightarrow> VBool b
      | JInt n \<Rightarrow> VInt (word_of_int n)
      | JFloat d \<Rightarrow> VDouble d
      | JString s \<Rightarrow> VString s
      | _ \<Rightarrow> VInt 0)"

definition load_entry :: "time_point \<Rightarrow> json \<Rightarrow> fault + ValueEntry" where
  "load_entry now entryJson =
     (case at_const entryJson ''value'' of
        Inl f \<Rightarrow> Inl f
      | Inr v \<Rightarrow>
          (case value_or_false entryJson ''hasExpiry'' of
             Inl f \<Rightarrow> Inl f
           | Inr False \<Rightarrow> Inr \<lparr>entry_value = load_value v, expiry = 0, hasExpiry = False\<rparr>
           | Inr True \<Rightarrow>
               (case at_const entryJson ''ttl_remaining'' of
                  Inl f \<Rightarrow> Inl f
                | Inr JNull \<Rightarrow> Inr \<lparr>entry_value = load_value v, expiry = 0, hasExpiry = True\<rparr>
                | Inr t \<Rightarrow>
                    (case get_int t of
                       Inl f \<Rightarrow> Inl f
                     | Inr remaining \<Rightarrow>
                         Inr \<lparr>entry_value = load_value v,
                              expiry = now + seconds (sint remaining),
                              hasExpiry = True\<rparr>))))"

text \<open>The loop over the members of an object; an exception leaves the map as it is then.\<close>

fun load_members :: "time_point \<Rightarrow> (string \<times> json) list \<Rightarrow> storage \<Rightarrow> (fault + bool) \<times> storage" where
  "load_members now [] m = (Inr True, m)"
| "load_members now ((key, entryJson) # rest) m =
     (case load_entry now entryJson of
        Inl f \<Rightarrow> (Inl f, m)
      | Inr entry \<Rightarrow> load_members now rest (fmupd key entry m))"

text \<open>
  \<open>loadFromFile now f m\<close>: \<open>f\<close> is the file under the name, \<open>None\<close> when it cannot be
  opened. \<^verbatim>\<open>file >> js\<close> throws on bytes that do not parse, before \<^verbatim>\<open>map_.clear()\<close>.
  The iterator of \<^verbatim>\<open>null\<close> and of an empty array visits nothing; on any other value
  that is not an object the first \<^verbatim>\<open>it.key()\<close> throws \<^verbatim>\<open>invalid_iterator.207\<close>.
\<close>

definition loadFromFile :: "time_point \<Rightarrow> file_content option \<Rightarrow> storage \<Rightarrow> (fault + bool) \<times> storage" where
  "loadFromFile now f m =
     (case f of
        None \<Rightarrow> (Inr False, m)
      | Some Unparsable \<Rightarrow> (Inl parse_error, m)
      | Some (Parses js) \<Rightarrow>
          (case js of
             JObject members \<Rightarrow> load_members now members fmempty
           | JNull \<Rightarrow> (Inr True, fmempty)
           | JArray [] \<Rightarrow> (Inr True, fmempty)
           | _ \<Rightarrow> (Inl invalid_iterator, fmempty)))"

section \<open>Notions for the statements\<close>

text \<open>
  An entry is logically dead when its expiry is set and the clock has reached it. A key is
  alive in a store when the store holds an entry for it that is not logically dead; it is
  dead but present when the store still holds a logically dead entry for it.
\<close>

definition logically_dead :: "time_point \<Rightarrow> ValueEntry \<Rightarrow> bool" where
  "logically_dead now e = (hasExpiry e \<and> expiry e \<le> now)"

definition alive :: "time_point \<Rightarrow> storage \<Rightarrow> string \<Rightarrow> bool" where
  "alive now m key =
     (case fmlookup m key of None \<Rightarrow> False | Some e \<Rightarrow> \<not> logically_dead now e)"

definition dead_present :: "time_point \<Rightarrow> storage \<Rightarrow> string \<Rightarrow> bool" where
  "dead_present now m key =
     (case fmlookup m key of None \<Rightarrow> False | Some e \<Rightarrow> logically_dead now e)"

text \<open>
  The number of keys for which \<open>exists\<close> would return true at \<open>now\<close>, and the number of
  keys whose entry is still in the map although it is logically dead.
\<close>

definition alive_count :: "time_point \<Rightarrow> storage \<Rightarrow> nat" where
  "alive_count now m = fcard (ffilter (\<lambda>key. fst (exists now key m)) (fmdom m))"

definition dead_count :: "time_point \<Rightarrow> storage \<Rightarrow> nat" where
  "dead_count now m = fcard (ffilter (dead_present now m) (fmdom m))"

text \<open>
  Saving at \<open>now\<close> to a file that can be opened, then loading what was written into the
  store \<open>target\<close> at \<open>now'\<close>.
\<close>

definition save_then_load ::
  "time_point \<Rightarrow> time_point \<Rightarrow> storage \<Rightarrow> storage \<Rightarrow> (fault + bool) \<times> storage" where
  "save_then_load now now' m target = loadFromFile now' (snd (saveToFile now True m)) target"

text \<open>
  The stores of the specification's data model: every key and every string value that is
  alive is well-formed UTF-8, and no expiry lies \<open>2 ^ 31\<close> seconds or more ahead of the
  clock (a TTL is a 32-bit \<^verbatim>\<open>int\<close> of seconds, counted from a clock reading in the past).
\<close>

definition utf8_store :: "time_point \<Rightarrow> storage \<Rightarrow> bool" where
  "utf8_store now m =
     fmpred (\<lambda>key e. logically_dead now e \<or>
        utf8_valid key \<and> (case entry_value e of VString s \<Rightarrow> utf8_valid s | _ \<Rightarrow> True)) m"

definition ttl_fits :: "time_point \<Rightarrow> storage \<Rightarrow> bool" where
  "ttl_fits now m = fmpred (\<lambda>key e. hasExpiry e \<longrightarrow> expiry e - now < seconds (2 ^ 31)) m"

text \<open>
  A value other than a floating-point number that is not finite, and what the loader reads
  from the text of a saved value.
\<close>

definition finite_value :: "Value \<Rightarrow> bool" where
  "finite_value v =
     (case v of
        VDouble PlusInfinity \<Rightarrow> False
      | VDouble MinusInfinity \<Rightarrow> False
      | VDouble NaN \<Rightarrow> False
      | _ \<Rightarrow> True)"

definition read_back :: "Value \<Rightarrow> Value" where
  "read_back v =
     (case v of
        VDouble PlusInfinity \<Rightarrow> VInt 0
      | VDouble MinusInfinity \<Rightarrow> VInt 0
      | VDouble NaN \<Rightarrow> VInt 0
      | _ \<Rightarrow> v)"

definition reloaded_entry :: "time_point \<Rightarrow> time_point \<Rightarrow> ValueEntry \<Rightarrow> ValueEntry" where
  "reloaded_entry now now' e =
     \<lparr>entry_value = read_back (entry_value e),
      expiry = (if hasExpiry e
                then now' + seconds (sint (word_of_int (duration_cast_seconds (expiry e - now)) :: 32 word))
                else 0),
      hasExpiry = hasExpiry e\<rparr>"




text \<open>The entries that \<^verbatim>\<open>saveToFile\<close> does not skip.\<close>

definition written :: "time_point \<Rightarrow> storage \<Rightarrow> storage" where
  "written now m =
     fmfilter (\<lambda>key. case fmlookup m key of
                       None \<Rightarrow> False
                     | Some entry \<Rightarrow> \<not> (hasExpiry entry \<and> now \<ge> expiry entry)) m"

section \<open>Concrete stores and documents\<close>

text \<open>
  A store after \<^verbatim>\<open>set("k", 1, 1)\<close> at tick 0, looked at one and a half seconds later,
  between two sweeps of the cleaner: the entry has expired and is still in the map.
\<close>

definition expired_only :: storage where
  "expired_only = set_storage_ttl 0 ''k'' (VInt 1) 1 fmempty"

definition later :: time_point where
  "later = 1500000000"

text \<open>
  A store with the four kinds of value at tick 0: two entries without expiry, one with two
  and a half seconds left, one with half a second left, and a NaN.
\<close>

definition mixed_store :: storage where
  "mixed_store =
     fmupd ''i'' \<lparr>entry_value = VInt 42, expiry = 0, hasExpiry = False\<rparr>
    (fmupd ''d'' \<lparr>entry_value = VDouble (Finite 3.5), expiry = 0, hasExpiry = False\<rparr>
    (fmupd ''s'' \<lparr>entry_value = VString ''hello'', expiry = 2500000000, hasExpiry = True\<rparr>
    (fmupd ''b'' \<lparr>entry_value = VBool True, expiry = 500000000, hasExpiry = True\<rparr>
    (fmupd ''n'' \<lparr>entry_value = VDouble NaN, expiry = 0, hasExpiry = False\<rparr> fmempty))))"


definition prior_store :: storage where
  "prior_store = fmupd ''old'' \<lparr>entry_value = VBool True, expiry = 0, hasExpiry = False\<rparr> fmempty"

section \<open>Lookup: \<open>get\<close> and \<open>exists\<close>\<close>

lemma get_result:
  "fst (get now key m) =
     (case fmlookup m key of
        None \<Rightarrow> None
      | Some e \<Rightarrow> if logically_dead now e then None else Some (entry_value e))"
  by (simp add: get_def logically_dead_def split: option.split)

lemma exists_result: "fst (exists now key m) = alive now m key"
  by (simp add: exists_def alive_def logically_dead_def split: option.split)

lemma get_store:
  "snd (get now key m) = (if dead_present now m key then fmdrop key m else m)"
  by (simp add: get_def dead_present_def logically_dead_def split: option.split)

lemma exists_store:
  "snd (exists now key m) = (if dead_present now m key then fmdrop key m else m)"
  by (simp add: exists_def dead_present_def logically_dead_def split: option.split)

text \<open>
  C5. \<open>get\<close> returns the stored value exactly when the key is present and not logically
  dead at the lookup, and absent otherwise; \<open>exists\<close> is true exactly when \<open>get\<close> returns a
  value; and both erase a logically dead entry they find, leaving the map as it was in
  every other case.
\<close>

theorem get_exists_lazy_cleanup:
  "fst (get now key m) =
     (case fmlookup m key of
        None \<Rightarrow> None
      | Some e \<Rightarrow> if logically_dead now e then None else Some (entry_value e))
   \<and> fst (exists now key m) = (fst (get now key m) \<noteq> None)
   \<and> fst (exists now key m) = alive now m key
   \<and> snd (get now key m) = (if dead_present now m key then fmdrop key m else m)
   \<and> snd (exists now key m) = snd (get now key m)
   \<and> fmlookup (snd (get now key m)) key =
       (if alive now m key then fmlookup m key else None)"
proof -
  have "fst (exists now key m) = (fst (get now key m) \<noteq> None)"
    by (simp add: exists_def get_def split: option.split)
  moreover have "snd (exists now key m) = snd (get now key m)"
    by (simp add: exists_store get_store)
  moreover have "fmlookup (snd (get now key m)) key =
       (if alive now m key then fmlookup m key else None)"
    by (simp add: get_store dead_present_def alive_def split: option.split)
  ultimately show ?thesis
    using get_result exists_result get_store by simp
qed

section \<open>Writing: \<open>set\<close>\<close>

text \<open>
  C8. After \<open>set(k, v)\<close> without a TTL, \<open>get(k)\<close> returns \<open>v\<close> at any later reading of the
  clock and changes nothing; the entry has no expiry, whatever entry the key had before, one
  with a TTL included; and a second \<open>set(k, v2)\<close> makes \<open>get(k)\<close> return \<open>v2\<close>.
\<close>

theorem set_get_last_writer_wins:
  "fst (get now key (set_storage key v m)) = Some v
   \<and> snd (get now key (set_storage key v m)) = set_storage key v m
   \<and> fmlookup (set_storage key v m) key =
       Some \<lparr>entry_value = v, expiry = 0, hasExpiry = False\<rparr>
   \<and> fmlookup (set_storage key v (set_storage_ttl now0 key v0 ttl_secs m)) key =
       Some \<lparr>entry_value = v, expiry = 0, hasExpiry = False\<rparr>
   \<and> fst (get now key (set_storage key v (set_storage_ttl now0 key v0 ttl_secs m))) = Some v
   \<and> fst (get now key (set_storage key v2 (set_storage key v m))) = Some v2"
  by (simp add: get_def set_storage_def set_storage_ttl_def)

text \<open>
  C7. \<open>set(k, v, ttl)\<close> with \<open>ttl \<le> 0\<close> stores the entry, with an expiry that is not after
  the clock reading of the call; at every later reading \<open>exists(k)\<close> is false and \<open>get(k)\<close>
  is absent.
\<close>

theorem set_nonpositive_ttl_dead:
  assumes "sint ttl_secs \<le> 0" and "now \<le> now'"
  shows "fmlookup (set_storage_ttl now key v ttl_secs m) key =
           Some \<lparr>entry_value = v, expiry = now + seconds (sint ttl_secs), hasExpiry = True\<rparr>
     \<and> fst (exists now' key (set_storage_ttl now key v ttl_secs m)) = False
     \<and> fst (get now' key (set_storage_ttl now key v ttl_secs m)) = None
     \<and> alive now' (set_storage_ttl now key v ttl_secs m) key = False"
proof -
  have "seconds (sint ttl_secs) \<le> 0"
    using assms(1) by (simp add: seconds_def mult_le_0_iff)
  then have "now + seconds (sint ttl_secs) \<le> now'"
    using assms(2) by linarith
  then show ?thesis
    by (simp add: exists_def get_def alive_def logically_dead_def set_storage_ttl_def)
qed

text \<open>
  Witness for C7: \<^verbatim>\<open>set("zero", "val", 0)\<close> and \<^verbatim>\<open>set("negative", "val", -1)\<close> at tick 7,
  looked up at ticks 7 and 8.
\<close>

theorem set_nonpositive_ttl_dead_witness:
  "sint (0 :: 32 word) \<le> 0 \<and> sint (- 1 :: 32 word) \<le> 0 \<and> (7 :: int) \<le> 8
   \<and> fst (exists 7 ''zero'' (set_storage_ttl 7 ''zero'' (VString ''val'') 0 fmempty)) = False
   \<and> fst (get 7 ''zero'' (set_storage_ttl 7 ''zero'' (VString ''val'') 0 fmempty)) = None
   \<and> fst (exists 8 ''negative'' (set_storage_ttl 7 ''negative'' (VString ''val'') (- 1) fmempty)) = False
   \<and> fst (get 8 ''negative'' (set_storage_ttl 7 ''negative'' (VString ''val'') (- 1) fmempty)) = None"
  using set_nonpositive_ttl_dead [of 0 7 7 "''zero''" "VString ''val''" fmempty]
    set_nonpositive_ttl_dead [of "- 1" 7 8 "''negative''" "VString ''val''" fmempty]
  by simp

section \<open>Removing: \<open>del\<close>\<close>

text \<open>
  C4, as amended. \<open>del(k)\<close> returns true exactly when the map held an entry for \<open>k\<close>
  before the call, alive or logically dead; after the call the map holds none, and
  \<open>exists(k)\<close> is false at any reading of the clock.
\<close>

theorem del_returns_physical_presence:
  "fst (del key m) = (alive now m key \<or> dead_present now m key)
   \<and> fmlookup (snd (del key m)) key = None
   \<and> fst (exists now' key (snd (del key m))) = False"
  by (simp add: del_def exists_def alive_def dead_present_def fmlookup_dom_iff
      split: option.split)

text \<open>
  Counterexample to C4 as stated: the key of \<open>expired_only\<close> is not alive one and a half
  seconds after it was set, and \<open>del\<close> returns true for it.
\<close>

theorem del_dead_key_counterexample:
  "alive later expired_only ''k'' = False \<and> fst (del ''k'' expired_only) = True"
  by (simp add: del_def expired_only_def later_def set_storage_ttl_def alive_def
      logically_dead_def seconds_def)

section \<open>Counting: \<open>size\<close>\<close>

lemma dom_alive_or_dead:
  "fmdom m =
     ffilter (\<lambda>key. fst (exists now key m)) (fmdom m) |\<union>| ffilter (dead_present now m) (fmdom m)"
  by (auto simp: exists_result alive_def dead_present_def fmlookup_dom_iff split: option.splits)

lemma alive_dead_disjoint:
  "ffilter (\<lambda>key. fst (exists now key m)) (fmdom m) |\<inter>| ffilter (dead_present now m) (fmdom m)
     = {||}"
  by (auto simp: exists_result alive_def dead_present_def split: option.splits)

lemma size_alive_dead: "size_storage m = alive_count now m + dead_count now m"
  unfolding size_storage_def alive_count_def dead_count_def
  using dom_alive_or_dead [of m now] alive_dead_disjoint [of now m]
  by (metis fcard_funion_disjoint)

lemma sweep_dom:
  "fmdom (cleaner_sweep now m) = ffilter (\<lambda>key. fst (exists now key m)) (fmdom m)"
  by (auto simp: cleaner_sweep_def exists_result alive_def logically_dead_def
      split: option.splits)

lemma alive_count_card: "alive_count now m = card {key. fst (exists now key m)}"
proof -
  have "{key. fst (exists now key m)} = fset (ffilter (\<lambda>key. fst (exists now key m)) (fmdom m))"
    by (auto simp: exists_result alive_def fmlookup_dom_iff split: option.splits)
  then show ?thesis by (simp add: alive_count_def fcard.rep_eq)
qed

text \<open>
  C1, as amended. \<open>size()\<close> is the number of entries in the map: the keys for which
  \<open>exists\<close> would return true plus the keys whose logically dead entry has not been erased.
  It is the count of alive keys exactly when the map holds no logically dead entry, as it
  does after a sweep of the cleaner at that reading of the clock.
\<close>

theorem size_counts_physical_entries:
  "size_storage m = alive_count now m + dead_count now m
   \<and> alive_count now m = card {key. fst (exists now key m)}
   \<and> (size_storage m = alive_count now m) = (dead_count now m = 0)
   \<and> size_storage (cleaner_sweep now m) = alive_count now m"
proof -
  have "size_storage (cleaner_sweep now m) = alive_count now m"
    by (simp add: size_storage_def alive_count_def sweep_dom)
  then show ?thesis
    using size_alive_dead [of m now] alive_count_card [of now m] by simp
qed

text \<open>
  Counterexample to C1 as stated: \<open>expired_only\<close> holds one entry, expired one and a half
  seconds after it was set; no key is alive, and \<open>size()\<close> is 1.
\<close>

theorem size_counts_dead_entry_counterexample:
  "fst (exists later ''k'' expired_only) = False
   \<and> alive_count later expired_only = 0
   \<and> size_storage expired_only = 1"
  by (simp add: size_storage_def alive_count_def expired_only_def later_def
      set_storage_ttl_def exists_def seconds_def fcard_finsert_if)

section \<open>Attaching an expiry: \<open>expire\<close>\<close>

text \<open>
  C2, the code at the failing input. The key of \<open>expired_only\<close> is logically dead one and
  a half seconds after it was set: \<open>exists\<close> is false. \<open>expire\<close> with a TTL of 100 seconds
  returns true for it, and after that call \<open>exists\<close> is true at the same reading.
\<close>

theorem expire_resurrects_dead_key:
  "fst (exists later ''k'' expired_only) = False
   \<and> fst (expire later ''k'' 100 expired_only) = True
   \<and> fst (exists later ''k'' (snd (expire later ''k'' 100 expired_only))) = True"
  by (simp add: expire_def exists_def expired_only_def later_def set_storage_ttl_def
      seconds_def)

section \<open>Loading\<close>



lemma map_of_map_snd:
  "map_of (map (\<lambda>kv. (fst kv, f (snd kv))) xs) k = map_option f (map_of xs k)"
  by (induction xs) auto





text \<open>
  An exception in the loop leaves the records loaded before it: here the second record has
  a string for \<^verbatim>\<open>ttl_remaining\<close>.
\<close>

lemma load_fault_keeps_earlier_records:
  "loadFromFile 0
     (Some (Parses (JObject
       [(''a'', JObject [(''hasExpiry'', JBool False), (''ttl_remaining'', JNull),
                         (''value'', JInt 1)]),
        (''b'', JObject [(''hasExpiry'', JBool True), (''ttl_remaining'', JString ''soon''),
                         (''value'', JInt 2)])]))) prior_store =
   (Inl type_error, fmupd ''a'' \<lparr>entry_value = VInt 1, expiry = 0, hasExpiry = False\<rparr> fmempty)"
  by (simp add: loadFromFile_def load_entry_def at_const_def value_or_false_def load_value_def
      get_int_def)

text \<open>
  C10. \<open>load\<close> on a file that cannot be opened returns false and leaves the map as it was.
  So does, with an exception instead of a return, a file whose bytes do not parse. Once a
  document has been read the prior content plays no part: the result is that of loading
  into an empty store.
\<close>

theorem load_unopened_file_unchanged:
  "loadFromFile now None m = (Inr False, m)
   \<and> loadFromFile now (Some Unparsable) m = (Inl parse_error, m)
   \<and> loadFromFile now (Some (Parses js)) m = loadFromFile now (Some (Parses js)) fmempty"
  by (simp add: loadFromFile_def)




section \<open>Snapshot: \<open>dump\<close>, and where entries are removed\<close>

lemma load_members_dom_sub:
  "fmdom (snd (load_members now records m)) |\<subseteq>|
     fmdom m |\<union>| fset_of_list (map fst records)"
proof (induction records arbitrary: m)
  case Nil
  then show ?case by simp
next
  case (Cons kv records)
  obtain key entryJson where kv: "kv = (key, entryJson)" by (cases kv)
  show ?case
  proof (cases "load_entry now entryJson")
    case (Inl f)
    then show ?thesis by (auto simp: kv)
  next
    case (Inr entry)
    then show ?thesis
      using Cons.IH [of "fmupd key entry m"] by (auto simp: kv)
  qed
qed

text \<open>
  C9, as amended. \<open>dump()\<close> leaves the map as it was: the snapshot holds the value of
  every entry that is not logically dead and nothing else, and a logically dead entry stays
  in the map. Of the other methods, \<open>set\<close> and \<open>expire\<close> remove no key; \<open>del\<close> removes its
  key, \<open>get\<close> and \<open>exists\<close> remove theirs when its entry is logically dead, and the sweep
  removes every logically dead entry; and \<open>load\<close> removes too: once its input is read,
  every key that is not a record of the input is gone, and on the document \<^verbatim>\<open>null\<close> the
  map is left empty.
\<close>

theorem dump_leaves_store_removal_paths:
  "snd (dump now m) = m
   \<and> fmlookup (fst (dump now m)) key =
       (case fmlookup m key of
          None \<Rightarrow> None
        | Some e \<Rightarrow> if logically_dead now e then None else Some (entry_value e))
   \<and> dead_present now (snd (dump now m)) key = dead_present now m key
   \<and> size_storage (snd (dump now m)) = size_storage m
   \<and> fmdom (set_storage k v m) = finsert k (fmdom m)
   \<and> fmdom (set_storage_ttl now k v ttl_secs m) = finsert k (fmdom m)
   \<and> fmdom (snd (expire now k ttl_secs m)) = fmdom m
   \<and> fmdom (snd (del k m)) = fmdom m |-| {|k|}
   \<and> fmdom (snd (get now k m)) = (if dead_present now m k then fmdom m |-| {|k|} else fmdom m)
   \<and> fmdom (snd (exists now k m)) =
       (if dead_present now m k then fmdom m |-| {|k|} else fmdom m)
   \<and> fmdom (cleaner_sweep now m) = ffilter (alive now m) (fmdom m)
   \<and> fmdom (snd (loadFromFile now (Some (Parses (JObject records))) m)) |\<subseteq>|
        fset_of_list (map fst records)
   \<and> loadFromFile now (Some (Parses JNull)) m = (Inr True, fmempty)"
proof -
  have d: "snd (dump now m) = m
   \<and> fmlookup (fst (dump now m)) key =
       (case fmlookup m key of
          None \<Rightarrow> None
        | Some e \<Rightarrow> if logically_dead now e then None else Some (entry_value e))
   \<and> dead_present now (snd (dump now m)) key = dead_present now m key
   \<and> size_storage (snd (dump now m)) = size_storage m"
    by (simp add: dump_def logically_dead_def split: option.split)
  have w: "fmdom (set_storage k v m) = finsert k (fmdom m)
   \<and> fmdom (set_storage_ttl now k v ttl_secs m) = finsert k (fmdom m)
   \<and> fmdom (snd (expire now k ttl_secs m)) = fmdom m"
    by (auto simp: set_storage_def set_storage_ttl_def expire_def fmlookup_dom_iff
        split: option.splits)
  have r: "fmdom (snd (del k m)) = fmdom m |-| {|k|}
   \<and> fmdom (snd (get now k m)) = (if dead_present now m k then fmdom m |-| {|k|} else fmdom m)
   \<and> fmdom (snd (exists now k m)) =
       (if dead_present now m k then fmdom m |-| {|k|} else fmdom m)"
    by (simp add: del_def get_store exists_store)
  have c: "fmdom (cleaner_sweep now m) = ffilter (alive now m) (fmdom m)"
    by (auto simp: cleaner_sweep_def alive_def logically_dead_def split: option.splits)
  have l: "fmdom (snd (loadFromFile now (Some (Parses (JObject records))) m)) |\<subseteq>|
        fset_of_list (map fst records)
   \<and> loadFromFile now (Some (Parses JNull)) m = (Inr True, fmempty)"
    using load_members_dom_sub [of now records fmempty] by (simp add: loadFromFile_def)
  show ?thesis using d w r c l by blast
qed

text \<open>
  Counterexample to C9 as stated: the entry of \<open>expired_only\<close> is logically dead and still
  in the map one and a half seconds after it was set; \<open>load\<close> of a file that holds \<^verbatim>\<open>null\<close>,
  as \<open>save\<close> writes for a store with nothing alive, returns true and the entry is gone,
  through none of \<open>del\<close>, \<open>get\<close>, \<open>exists\<close> and the sweep.
\<close>

theorem load_removes_entries_counterexample:
  "dead_present later expired_only ''k''
   \<and> loadFromFile later (Some (Parses JNull)) expired_only = (Inr True, fmempty)
   \<and> fmlookup (snd (loadFromFile later (Some (Parses JNull)) expired_only)) ''k'' = None"
  by (simp add: loadFromFile_def dead_present_def logically_dead_def expired_only_def later_def
      set_storage_ttl_def seconds_def)

section \<open>Saving, and loading what was saved\<close>

lemma written_lookup:
  "fmlookup (written now m) key = (if alive now m key then fmlookup m key else None)"
  by (simp add: written_def alive_def logically_dead_def split: option.split)

lemma saved_json_cases:
  "saved_json now m =
     (if written now m = fmempty then JNull
      else JObject (sorted_list_of_fmap (fmmap (entry_json now) (written now m))))"
  by (simp add: saved_json_def written_def Let_def)

lemma distinct_sorted_keys: "distinct (map fst (sorted_list_of_fmap m))"
  by (simp add: sorted_list_of_fmap_def comp_def sorted_list_of_fset.rep_eq)

lemma set_sorted_list_of_fmap:
  "(k, v) \<in> set (sorted_list_of_fmap m) \<longleftrightarrow> fmlookup m k = Some v"
  by (auto simp: sorted_list_of_fmap_def fmlookup_dom_iff)

subsection \<open>When \<^verbatim>\<open>dump\<close> returns\<close>

lemma dumps_entry_json:
  "dumps (entry_json now e) = (case entry_value e of VString s \<Rightarrow> utf8_valid s | _ \<Rightarrow> True)"
  by (cases "entry_value e") (simp_all add: entry_json_def byte_in_def)

lemma dumps_object:
  "dumps (JObject kvs) = list_all (\<lambda>kv. utf8_valid (fst kv) \<and> dumps (snd kv)) kvs"
  by (induction kvs) auto

lemma dumps_object_sorted:
  "dumps (JObject (sorted_list_of_fmap fm)) = fmpred (\<lambda>k j. utf8_valid k \<and> dumps j) fm"
  unfolding dumps_object list_all_sorted_list by (simp add: curry_def)

lemma utf8_store_written:
  "utf8_store now m =
     fmpred (\<lambda>k e. utf8_valid k \<and> dumps (entry_json now e)) (written now m)"
  by (auto simp: fmpred_iff utf8_store_def written_lookup alive_def dumps_entry_json
      split: option.splits if_splits)

lemma dumps_saved_json: "dumps (saved_json now m) = utf8_store now m"
proof (cases "written now m = fmempty")
  case True
  then show ?thesis by (simp add: saved_json_cases utf8_store_written)
next
  case False
  then have "saved_json now m =
      JObject (sorted_list_of_fmap (fmmap (entry_json now) (written now m)))"
    by (simp only: saved_json_cases if_False)
  then have "dumps (saved_json now m) =
      fmpred (\<lambda>k j. utf8_valid k \<and> dumps j) (fmmap (entry_json now) (written now m))"
    by (simp only: dumps_object_sorted)
  then show ?thesis by (simp add: utf8_store_written)
qed

lemma saveToFile_utf8:
  "utf8_store now m \<Longrightarrow>
     saveToFile now True m = (Inr True, Some (Parses (reparsed (saved_json now m))))"
  by (simp add: saveToFile_def dumps_saved_json Let_def)

subsection \<open>What the loader makes of a saved entry\<close>

lemma load_value_reparsed: "load_value (reparsed (value_json v)) = read_back v"
  by (cases v) (auto simp: load_value_def read_back_def split: double.splits)

lemma load_entry_saved:
  "load_entry now' (reparsed (entry_json now e)) = Inr (reloaded_entry now now' e)"
  by (simp add: load_entry_def entry_json_def at_const_def value_or_false_def get_int_def
      reloaded_entry_def load_value_reparsed)

lemma load_members_lookup:
  assumes "distinct (map fst kvs)"
    and "\<And>k j. (k, j) \<in> set kvs \<Longrightarrow> load_entry now j = Inr (g j)"
  shows "fst (load_members now kvs m) = Inr True
     \<and> fmlookup (snd (load_members now kvs m)) key =
        (case map_of kvs key of None \<Rightarrow> fmlookup m key | Some j \<Rightarrow> Some (g j))"
  using assms
proof (induction kvs arbitrary: m)
  case Nil
  then show ?case by simp
next
  case (Cons kv kvs)
  obtain k j where kv: "kv = (k, j)" by (cases kv)
  have le: "load_entry now j = Inr (g j)"
    using Cons.prems(2) [of k j] kv by simp
  have d: "distinct (map fst kvs)" and nk: "k \<notin> fst ` set kvs"
    using Cons.prems(1) kv by auto
  have IH: "fst (load_members now kvs (fmupd k (g j) m)) = Inr True
     \<and> fmlookup (snd (load_members now kvs (fmupd k (g j) m))) key =
        (case map_of kvs key of
           None \<Rightarrow> fmlookup (fmupd k (g j) m) key
         | Some j \<Rightarrow> Some (g j))"
    by (rule Cons.IH [OF d]) (use Cons.prems(2) in auto)
  have "map_of kvs k = None"
    using nk by (simp add: map_of_eq_None_iff)
  then show ?case
    using IH by (auto simp: kv le split: option.splits)
qed

lemma reparsed_object:
  "reparsed (JObject kvs) = JObject (map (\<lambda>kv. (fst kv, reparsed (snd kv))) kvs)"
  by (simp add: map_prod_def case_prod_beta)

lemma load_members_saved:
  "fst (load_members now' (map (\<lambda>kv. (fst kv, reparsed (snd kv)))
            (sorted_list_of_fmap (fmmap (entry_json now) w))) m0) = Inr True
   \<and> fmlookup (snd (load_members now' (map (\<lambda>kv. (fst kv, reparsed (snd kv)))
            (sorted_list_of_fmap (fmmap (entry_json now) w))) m0)) key =
       (case fmlookup w key of
          None \<Rightarrow> fmlookup m0 key
        | Some e \<Rightarrow> Some (reloaded_entry now now' e))"
proof -
  let ?l = "map (\<lambda>kv. (fst kv, reparsed (snd kv)))
              (sorted_list_of_fmap (fmmap (entry_json now) w))"
  define g where "g j = (case load_entry now' j of Inr e \<Rightarrow> e)" for j
  have d: "distinct (map fst ?l)"
    using distinct_sorted_keys [of "fmmap (entry_json now) w"] by (simp add: comp_def)
  have ok: "load_entry now' j = Inr (g j)" if "(k, j) \<in> set ?l" for k j
  proof -
    from that obtain j0
      where "(k, j0) \<in> set (sorted_list_of_fmap (fmmap (entry_json now) w))"
        and j: "j = reparsed j0" by auto
    then obtain e where "j0 = entry_json now e"
      by (auto simp: set_sorted_list_of_fmap)
    then show ?thesis by (simp add: j g_def load_entry_saved)
  qed
  have m: "map_of ?l key =
      map_option reparsed (map_of (sorted_list_of_fmap (fmmap (entry_json now) w)) key)"
    by (rule map_of_map_snd)
  have "fst (load_members now' ?l m0) = Inr True
     \<and> fmlookup (snd (load_members now' ?l m0)) key =
        (case map_of ?l key of None \<Rightarrow> fmlookup m0 key | Some j \<Rightarrow> Some (g j))"
    by (rule load_members_lookup [OF d ok])
  then show ?thesis
    by (auto simp: m g_def load_entry_saved split: option.splits)
qed

lemma load_saved_json:
  "fst (loadFromFile now' (Some (Parses (reparsed (saved_json now m)))) target) = Inr True
   \<and> fmlookup (snd (loadFromFile now' (Some (Parses (reparsed (saved_json now m)))) target)) key =
       (case fmlookup m key of
          None \<Rightarrow> None
        | Some e \<Rightarrow> if logically_dead now e then None else Some (reloaded_entry now now' e))"
proof (cases "written now m = fmempty")
  case True
  then have "fmlookup (written now m) key = None" by simp
  then have "\<not> alive now m key \<or> fmlookup m key = None"
    by (simp add: written_lookup split: if_splits)
  then show ?thesis
    using True
    by (auto simp: saved_json_cases loadFromFile_def alive_def split: option.splits)
next
  case False
  have "saved_json now m =
      JObject (sorted_list_of_fmap (fmmap (entry_json now) (written now m)))"
    using False by (simp only: saved_json_cases if_False)
  then have "loadFromFile now' (Some (Parses (reparsed (saved_json now m)))) target =
     load_members now' (map (\<lambda>kv. (fst kv, reparsed (snd kv)))
            (sorted_list_of_fmap (fmmap (entry_json now) (written now m)))) fmempty"
    by (simp only: reparsed_object loadFromFile_def option.case file_content.case json.case)
  then show ?thesis
    using load_members_saved [of now' now "written now m" fmempty key]
    by (auto simp: written_lookup alive_def split: option.splits)
qed

lemma save_then_load_exact:
  assumes "utf8_store now m"
  shows "fst (save_then_load now now' m target) = Inr True
   \<and> fmlookup (snd (save_then_load now now' m target)) key =
       (case fmlookup m key of
          None \<Rightarrow> None
        | Some e \<Rightarrow> if logically_dead now e then None else Some (reloaded_entry now now' e))"
  using load_saved_json [of now' now m target key]
  by (simp add: save_then_load_def saveToFile_utf8 [OF assms])

subsection \<open>Whole seconds\<close>

lemma sint_remaining:
  assumes "now < x" and "x - now < seconds (2 ^ 31)"
  shows "sint (word_of_int (duration_cast_seconds (x - now)) :: 32 word) =
     (x - now) div 1000000000"
proof -
  have a: "0 \<le> (x - now) div 1000000000"
    using assms(1) by simp
  have "(x - now) div 1000000000 < 2 ^ 31"
    using assms(2) by (simp add: seconds_def div_less_iff_less_mult)
  then have "signed_take_bit 31 ((x - now) div 1000000000) = (x - now) div 1000000000"
    using a by (intro signed_take_bit_int_eq_self) auto
  then show ?thesis
    using assms(1) by (simp add: duration_cast_seconds_def sint_sbintrunc')
qed

lemma reloaded_entry_fits:
  assumes "hasExpiry e \<longrightarrow> expiry e - now < seconds (2 ^ 31)"
    and "\<not> logically_dead now e"
  shows "reloaded_entry now now' e =
     \<lparr>entry_value = read_back (entry_value e),
      expiry = (if hasExpiry e then now' + seconds ((expiry e - now) div 1000000000) else 0),
      hasExpiry = hasExpiry e\<rparr>"
proof (cases "hasExpiry e")
  case True
  then have "now < expiry e"
    using assms(2) by (simp add: logically_dead_def)
  then show ?thesis
    using True assms(1) by (simp add: reloaded_entry_def sint_remaining)
next
  case False
  then show ?thesis by (simp add: reloaded_entry_def)
qed

lemma whole_seconds_bounds:
  "now + seconds ((x - now) div 1000000000) \<le> x
   \<and> x - seconds 1 < now + seconds ((x - now) div 1000000000)"
proof -
  define d where "d = x - now"
  have "0 \<le> d mod 1000000000" and "d mod 1000000000 < 1000000000"
    by simp_all
  moreover have "d div 1000000000 * 1000000000 + d mod 1000000000 = d"
    by simp
  ultimately have "d div 1000000000 * 1000000000 \<le> d
      \<and> d - 1000000000 < d div 1000000000 * 1000000000"
    by linarith
  then show ?thesis by (simp add: seconds_def d_def)
qed

lemma utf8_store_mixed: "utf8_store 0 mixed_store"
  by (auto simp: utf8_store_def mixed_store_def fmpred_iff byte_in_def split: if_splits)

lemma ttl_fits_mixed: "ttl_fits 0 mixed_store"
  by (auto simp: ttl_fits_def mixed_store_def fmpred_iff seconds_def split: if_splits)

subsection \<open>The expiries of the stores the methods build\<close>

text \<open>
  \<open>ttl_fits\<close> holds of the empty store, goes on holding as the clock advances, and is kept
  by every method: a TTL is a 32-bit number of seconds added to the reading of the call.
\<close>

lemma sint_seconds_fits: "seconds (sint (w :: 32 word)) < seconds (2 ^ 31)"
  using sint_lt [of w] by (simp add: seconds_def)

lemma ttl_fits_empty: "ttl_fits now fmempty"
  by (simp add: ttl_fits_def)

lemma ttl_fits_later: "now \<le> now' \<Longrightarrow> ttl_fits now m \<Longrightarrow> ttl_fits now' m"
  by (fastforce simp: ttl_fits_def fmpred_iff)

lemma ttl_fits_set: "ttl_fits now m \<Longrightarrow> ttl_fits now (set_storage key v m)"
  by (auto simp: ttl_fits_def set_storage_def fmpred_iff split: if_splits)

lemma ttl_fits_set_ttl:
  "ttl_fits now m \<Longrightarrow> ttl_fits now (set_storage_ttl now key v ttl_secs m)"
  using sint_seconds_fits [of ttl_secs]
  by (auto simp: ttl_fits_def set_storage_ttl_def fmpred_iff split: if_splits)

lemma ttl_fits_expire: "ttl_fits now m \<Longrightarrow> ttl_fits now (snd (expire now key ttl_secs m))"
  using sint_seconds_fits [of ttl_secs]
  by (auto simp: ttl_fits_def expire_def fmpred_iff split: if_splits option.splits)

lemma ttl_fits_drop: "ttl_fits now m \<Longrightarrow> ttl_fits now (fmdrop key m)"
  by (auto simp: ttl_fits_def)

lemma ttl_fits_lookups:
  "ttl_fits now m \<Longrightarrow>
     ttl_fits now (snd (get now key m)) \<and> ttl_fits now (snd (exists now key m))
     \<and> ttl_fits now (snd (del key m)) \<and> ttl_fits now (cleaner_sweep now m)"
  by (auto simp: get_store exists_store del_def cleaner_sweep_def ttl_fits_drop)
    (auto simp: ttl_fits_def)

lemma load_entry_fits:
  assumes "load_entry now entryJson = Inr e" and "0 \<le> now"
  shows "hasExpiry e \<longrightarrow> expiry e - now < seconds (2 ^ 31)"
proof -
  have "seconds (sint r) < seconds (2 ^ 31)" for r :: "32 word"
    by (rule sint_seconds_fits)
  moreover have "- now < seconds (2 ^ 31)"
    using assms(2) by (simp add: seconds_def)
  ultimately show ?thesis
    using assms(1)
    by (auto simp: load_entry_def split: sum.splits bool.splits json.splits)
qed

lemma load_members_fits:
  "0 \<le> now \<Longrightarrow> ttl_fits now m \<Longrightarrow> ttl_fits now (snd (load_members now records m))"
proof (induction records arbitrary: m)
  case Nil
  then show ?case by simp
next
  case (Cons kv records)
  obtain key entryJson where kv: "kv = (key, entryJson)" by (cases kv)
  show ?case
  proof (cases "load_entry now entryJson")
    case (Inl f)
    then show ?thesis using Cons.prems by (simp add: kv)
  next
    case (Inr entry)
    have "ttl_fits now (fmupd key entry m)"
      using Cons.prems load_entry_fits [OF Inr]
      by (auto simp: ttl_fits_def fmpred_iff split: if_splits)
    then show ?thesis
      using Cons.IH [of "fmupd key entry m"] Cons.prems(1) by (simp add: kv Inr)
  qed
qed

lemma ttl_fits_load:
  "0 \<le> now \<Longrightarrow> ttl_fits now m \<Longrightarrow> ttl_fits now (snd (loadFromFile now f m))"
  using load_members_fits [of now fmempty]
  by (auto simp: loadFromFile_def ttl_fits_empty split: option.splits file_content.splits
      json.splits list.splits)

subsection \<open>The round trip\<close>

lemma read_back_finite: "finite_value v \<Longrightarrow> read_back v = v"
  by (auto simp: finite_value_def read_back_def split: Value.splits double.splits)

text \<open>
  C6, as amended. For a store of the data model, \<open>save\<close> at the reading \<open>now\<close> to a file
  that can be opened returns true, and \<open>load\<close> of what was written, at any reading \<open>now'\<close>
  and into any store, returns true. A key that was not alive at the save does not come
  back. An entry that was alive at the save, with a value other than a floating-point
  number that is not finite, comes back with that value and variant and with its
  \<open>hasExpiry\<close> flag. When it has an expiry, the expiry that comes back is the reading of the
  load plus the whole seconds that remained at the save: the old expiry moved by the time
  between save and load, less a part of a second; loaded within a second of the save it is
  within a second of the old one. At the reading of the load such a key is alive exactly
  when it has no expiry or had at least one whole second left at the save.
\<close>

theorem save_load_round_trip:
  assumes "utf8_store now m" and "ttl_fits now m"
  shows "fst (saveToFile now True m) = Inr True
    \<and> fst (save_then_load now now' m target) = Inr True
    \<and> (\<not> alive now m key \<longrightarrow> fmlookup (snd (save_then_load now now' m target)) key = None)
    \<and> (\<forall>e. fmlookup m key = Some e \<and> \<not> logically_dead now e \<and> finite_value (entry_value e)
         \<longrightarrow> fmlookup (snd (save_then_load now now' m target)) key =
               Some \<lparr>entry_value = entry_value e,
                     expiry = (if hasExpiry e
                               then now' + seconds ((expiry e - now) div 1000000000) else 0),
                     hasExpiry = hasExpiry e\<rparr>
             \<and> alive now' (snd (save_then_load now now' m target)) key =
                 (\<not> hasExpiry e \<or> now + seconds 1 \<le> expiry e)
             \<and> (hasExpiry e
                  \<longrightarrow> now' + seconds ((expiry e - now) div 1000000000) \<le> expiry e + (now' - now)
                    \<and> expiry e + (now' - now) - seconds 1
                         < now' + seconds ((expiry e - now) div 1000000000))
             \<and> (hasExpiry e \<and> now \<le> now' \<and> now' \<le> now + seconds 1
                  \<longrightarrow> expiry e - seconds 1 < now' + seconds ((expiry e - now) div 1000000000)
                    \<and> now' + seconds ((expiry e - now) div 1000000000) \<le> expiry e + seconds 1))"
proof -
  let ?m' = "snd (save_then_load now now' m target)"
  have s: "fst (saveToFile now True m) = Inr True"
    by (simp add: saveToFile_utf8 [OF assms(1)])
  have l: "fst (save_then_load now now' m target) = Inr True"
    using save_then_load_exact [OF assms(1)] by simp
  have x: "fmlookup ?m' key =
       (case fmlookup m key of
          None \<Rightarrow> None
        | Some e \<Rightarrow> if logically_dead now e then None else Some (reloaded_entry now now' e))"
    using save_then_load_exact [OF assms(1)] by simp
  have d: "\<not> alive now m key \<longrightarrow> fmlookup ?m' key = None"
    by (simp add: x alive_def split: option.splits)
  have e: "fmlookup ?m' key =
               Some \<lparr>entry_value = entry_value e,
                     expiry = (if hasExpiry e
                               then now' + seconds ((expiry e - now) div 1000000000) else 0),
                     hasExpiry = hasExpiry e\<rparr>
             \<and> alive now' ?m' key = (\<not> hasExpiry e \<or> now + seconds 1 \<le> expiry e)
             \<and> (hasExpiry e
                  \<longrightarrow> now' + seconds ((expiry e - now) div 1000000000) \<le> expiry e + (now' - now)
                    \<and> expiry e + (now' - now) - seconds 1
                         < now' + seconds ((expiry e - now) div 1000000000))
             \<and> (hasExpiry e \<and> now \<le> now' \<and> now' \<le> now + seconds 1
                  \<longrightarrow> expiry e - seconds 1 < now' + seconds ((expiry e - now) div 1000000000)
                    \<and> now' + seconds ((expiry e - now) div 1000000000) \<le> expiry e + seconds 1)"
    if lk: "fmlookup m key = Some e" and nd: "\<not> logically_dead now e"
      and fv: "finite_value (entry_value e)" for e
  proof -
    have fits: "hasExpiry e \<longrightarrow> expiry e - now < seconds (2 ^ 31)"
      using assms(2) lk by (auto simp: ttl_fits_def fmpred_iff)
    have r: "fmlookup ?m' key =
               Some \<lparr>entry_value = entry_value e,
                     expiry = (if hasExpiry e
                               then now' + seconds ((expiry e - now) div 1000000000) else 0),
                     hasExpiry = hasExpiry e\<rparr>"
      by (simp add: x lk nd reloaded_entry_fits [OF fits nd] read_back_finite [OF fv])
    have w: "now + seconds ((expiry e - now) div 1000000000) \<le> expiry e
        \<and> expiry e - seconds 1 < now + seconds ((expiry e - now) div 1000000000)"
      by (rule whole_seconds_bounds)
    have q: "(1 \<le> (expiry e - now) div 1000000000) = (now + seconds 1 \<le> expiry e)"
      by (auto simp: seconds_def)
    have a: "alive now' ?m' key = (\<not> hasExpiry e \<or> now + seconds 1 \<le> expiry e)"
      using q by (auto simp: alive_def r logically_dead_def seconds_def)
    show ?thesis using r a w by (auto simp: seconds_def)
  qed
  show ?thesis using s l d e by blast
qed

text \<open>
  Witness for C6: \<open>mixed_store\<close> saved at tick 0 and loaded three milliseconds later. The
  string with two and a half seconds left comes back alive with two seconds left from the
  load; the integer and the finite floating-point number come back as they were; a key the
  store does not hold does not come back.
\<close>

theorem save_load_round_trip_witness:
  "utf8_store 0 mixed_store \<and> ttl_fits 0 mixed_store
   \<and> fst (saveToFile 0 True mixed_store) = Inr True
   \<and> fst (save_then_load 0 3000000 mixed_store fmempty) = Inr True
   \<and> fmlookup (snd (save_then_load 0 3000000 mixed_store fmempty)) ''s'' =
       Some \<lparr>entry_value = VString ''hello'', expiry = 2003000000, hasExpiry = True\<rparr>
   \<and> alive 3000000 (snd (save_then_load 0 3000000 mixed_store fmempty)) ''s''
   \<and> fmlookup (snd (save_then_load 0 3000000 mixed_store fmempty)) ''i'' =
       Some \<lparr>entry_value = VInt 42, expiry = 0, hasExpiry = False\<rparr>
   \<and> fmlookup (snd (save_then_load 0 3000000 mixed_store fmempty)) ''d'' =
       Some \<lparr>entry_value = VDouble (Finite 3.5), expiry = 0, hasExpiry = False\<rparr>
   \<and> fmlookup (snd (save_then_load 0 3000000 mixed_store fmempty)) ''absent'' = None"
proof -
  note t = save_load_round_trip [OF utf8_store_mixed ttl_fits_mixed, of 3000000 fmempty]
  have s: "fmlookup mixed_store ''s'' =
      Some \<lparr>entry_value = VString ''hello'', expiry = 2500000000, hasExpiry = True\<rparr>"
    and i: "fmlookup mixed_store ''i'' =
      Some \<lparr>entry_value = VInt 42, expiry = 0, hasExpiry = False\<rparr>"
    and d: "fmlookup mixed_store ''d'' =
      Some \<lparr>entry_value = VDouble (Finite 3.5), expiry = 0, hasExpiry = False\<rparr>"
    and n: "\<not> alive 0 mixed_store ''absent''"
    by (simp_all add: mixed_store_def alive_def)
  have f: "finite_value (VString ''hello'')" "finite_value (VInt 42)"
    "finite_value (VDouble (Finite 3.5))"
    by (simp_all add: finite_value_def)
  from t [of "''s''"] s f(1) have rs:
    "fmlookup (snd (save_then_load 0 3000000 mixed_store fmempty)) ''s'' =
       Some \<lparr>entry_value = VString ''hello'', expiry = 2003000000, hasExpiry = True\<rparr>
     \<and> alive 3000000 (snd (save_then_load 0 3000000 mixed_store fmempty)) ''s''"
    by (simp add: logically_dead_def seconds_def)
  from t [of "''i''"] i f(2) have ri:
    "fmlookup (snd (save_then_load 0 3000000 mixed_store fmempty)) ''i'' =
       Some \<lparr>entry_value = VInt 42, expiry = 0, hasExpiry = False\<rparr>"
    by (simp add: logically_dead_def)
  from t [of "''d''"] d f(3) have rd:
    "fmlookup (snd (save_then_load 0 3000000 mixed_store fmempty)) ''d'' =
       Some \<lparr>entry_value = VDouble (Finite 3.5), expiry = 0, hasExpiry = False\<rparr>"
    by (simp add: logically_dead_def)
  from t [of "''absent''"] n have ra:
    "fmlookup (snd (save_then_load 0 3000000 mixed_store fmempty)) ''absent'' = None"
    by blast
  from t [of "''s''"] have r0: "fst (saveToFile 0 True mixed_store) = Inr True
     \<and> fst (save_then_load 0 3000000 mixed_store fmempty) = Inr True"
    by blast
  show ?thesis using utf8_store_mixed ttl_fits_mixed r0 rs ri rd ra by blast
qed

text \<open>
  Counterexample to C6 as stated: in \<open>mixed_store\<close> the key \<open>b\<close> has half a second left at
  tick 0 and is alive then and three milliseconds later. Saved at tick 0 and loaded three
  milliseconds later, it is not alive in the loaded store at the reading of the load.
\<close>

theorem round_trip_counterexample:
  "alive 0 mixed_store ''b'' \<and> alive 3000000 mixed_store ''b''
   \<and> fst (save_then_load 0 3000000 mixed_store fmempty) = Inr True
   \<and> \<not> alive 3000000 (snd (save_then_load 0 3000000 mixed_store fmempty)) ''b''"
  using save_then_load_exact [OF utf8_store_mixed, of 3000000 fmempty "''b''"]
  by (simp add: mixed_store_def logically_dead_def read_back_def seconds_def alive_def
      reloaded_entry_def duration_cast_seconds_def)

text \<open>
  The code at a value the statement above leaves out: the NaN of \<open>mixed_store\<close> is written
  as \<^verbatim>\<open>null\<close>, and the loader's chain of tests leaves the entry's default in its place.
\<close>

lemma nan_not_read_back:
  "fmlookup mixed_store ''n'' =
       Some \<lparr>entry_value = VDouble NaN, expiry = 0, hasExpiry = False\<rparr>
   \<and> fmlookup (snd (save_then_load 0 3000000 mixed_store fmempty)) ''n'' =
       Some \<lparr>entry_value = VInt 0, expiry = 0, hasExpiry = False\<rparr>"
  using save_then_load_exact [OF utf8_store_mixed, of 3000000 fmempty "''n''"]
  by (simp add: mixed_store_def logically_dead_def read_back_def reloaded_entry_def)

end
